theory Spec2Isabelle
  imports Complex_Main "HOL-Library.Word" "HOL-Library.Log_Nat"
begin

section \<open>Go values used by the server\<close>

subsection \<open>Errors\<close>

text \<open>
  A Go \<^verbatim>\<open>error\<close> as far as server.go inspects one: by identity against a
  sentinel (\<^verbatim>\<open>errors.Is\<close>), by the \<^verbatim>\<open>net.Error\<close> interface and its
  \<^verbatim>\<open>Timeout()\<close> method (\<^verbatim>\<open>errors.As\<close>), by its message (\<^verbatim>\<open>err.Error()\<close>),
  and by the chain \<^verbatim>\<open>fmt.Errorf("...%w...", err)\<close> builds.
\<close>

datatype goerr =
    EOF
  | Canceled
  | DeadlineExceeded
  | ErrUnexpectedVersion
  | ErrUnexpectedCmdType
  | ErrAuthenticationFailed
  | NetError bool string
  | LibError string
  | Errorf string
  | Wrapf string goerr string

text \<open>
  \<^verbatim>\<open>EOF\<close> is \<^verbatim>\<open>io.EOF\<close>; \<^verbatim>\<open>Canceled\<close> and \<^verbatim>\<open>DeadlineExceeded\<close> are the two
  errors of package context; the three \<^verbatim>\<open>Err...\<close> values are the package variables of
  server.go (lines 34-38). \<^verbatim>\<open>NetError t m\<close> is a library error that implements
  \<^verbatim>\<open>net.Error\<close> with \<^verbatim>\<open>Timeout() = t\<close> and message \<^verbatim>\<open>m\<close>; \<^verbatim>\<open>LibError m\<close> is any
  other library error. \<^verbatim>\<open>Errorf m\<close> is \<^verbatim>\<open>fmt.Errorf\<close> without \<^verbatim>\<open>%w\<close>;
  \<^verbatim>\<open>Wrapf p e q\<close> is \<^verbatim>\<open>fmt.Errorf\<close> with one \<^verbatim>\<open>%w\<close>: the text before it, the
  wrapped error, the text after it.
\<close>

fun Error :: "goerr \<Rightarrow> string" where
  "Error EOF = ''EOF''"
| "Error Canceled = ''context canceled''"
| "Error DeadlineExceeded = ''context deadline exceeded''"
| "Error ErrUnexpectedVersion = ''unexpected version''"
| "Error ErrUnexpectedCmdType = ''unexpected cmd type''"
| "Error ErrAuthenticationFailed = ''authentication failed''"
| "Error (NetError t m) = m"
| "Error (LibError m) = m"
| "Error (Errorf m) = m"
| "Error (Wrapf p e q) = p @ Error e @ q"

text \<open>\<^verbatim>\<open>errors.Is(err, target)\<close> for a sentinel target: walk the chain, compare.\<close>

fun errors_Is :: "goerr \<Rightarrow> goerr \<Rightarrow> bool" where
  "errors_Is (Wrapf p e q) target = (Wrapf p e q = target \<or> errors_Is e target)"
| "errors_Is e target = (e = target)"

text \<open>
  \<^verbatim>\<open>errors.As(err, &netErr)\<close>: the first error of the chain that implements
  \<^verbatim>\<open>net.Error\<close>, given by its \<^verbatim>\<open>Timeout()\<close>. \<^verbatim>\<open>context.DeadlineExceeded\<close> has
  a \<^verbatim>\<open>Timeout()\<close> method that returns true.
\<close>

fun as_netError :: "goerr \<Rightarrow> bool option" where
  "as_netError (NetError t m) = Some t"
| "as_netError DeadlineExceeded = Some True"
| "as_netError (Wrapf p e q) = as_netError e"
| "as_netError e = None"

text \<open>The test \<^verbatim>\<open>errors.As(err, &netErr) && netErr.Timeout()\<close> of lines 127, 200, 211, 224.\<close>

definition is_timeout :: "goerr \<Rightarrow> bool" where
  "is_timeout err = (as_netError err = Some True)"

text \<open>\<^verbatim>\<open>strings.HasSuffix(s, suffix)\<close>.\<close>

definition HasSuffix :: "string \<Rightarrow> string \<Rightarrow> bool" where
  "HasSuffix s suf = (length suf \<le> length s \<and> drop (length s - length suf) s = suf)"

subsection \<open>Strings of numbers and addresses\<close>

definition digit_char :: "nat \<Rightarrow> char" where
  "digit_char d = ''0123456789'' ! d"

fun nat_digits :: "nat \<Rightarrow> string" where
  "nat_digits n = (if n < 10 then [digit_char n] else nat_digits (n div 10) @ [digit_char (n mod 10)])"

text \<open>\<^verbatim>\<open>strconv.Itoa\<close>.\<close>

definition Itoa :: "int \<Rightarrow> string" where
  "Itoa i = (if i < 0 then CHR ''-'' # nat_digits (nat (- i)) else nat_digits (nat i))"

text \<open>\<^verbatim>\<open>net.JoinHostPort\<close>: a host with a colon is put in brackets.\<close>

definition JoinHostPort :: "string \<Rightarrow> string \<Rightarrow> string" where
  "JoinHostPort host port =
     (if CHR '':'' \<in> set host then ''['' @ host @ '']:'' @ port else host @ '':'' @ port)"

subsection \<open>The server\<close>

type_synonym uuid = "128 word"
type_synonym token = "256 word"

text \<open>The two dialers \<^verbatim>\<open>New\<close> chooses between (lines 75-82); the address is netip.Addr.\<close>

datatype dialer = FullconeDirect | DirectDialerLaddr bool string

record tls_config =
  NextProtos :: "string list"
  MinVersion :: nat
  Certificates :: "string list"

record server =
  dialer :: dialer
  tlsConfig :: tls_config
  maxOpenIncomingStreams :: int
  congestionControl :: string
  cwnd :: int
  users :: "uuid \<rightharpoonup> string"
  fwmark :: int

text \<open>The metadata \<^verbatim>\<open>lConn.Read(nil)\<close> parses from a stream's header.\<close>

record metadata =
  Network :: string
  Hostname :: string
  Port :: "16 word"

section \<open>handleStream, after the gate (lines 184-232)\<close>

text \<open>
  What a stream task does to the outside: the calls of the Dialer and of the Relay
  Executor, in order. \<^verbatim>\<open>Dial d network mark target\<close> is
  \<^verbatim>\<open>s.dialer.Dial(magicNetwork.Encode(), target)\<close> on the dialer \<^verbatim>\<open>d\<close>, with the two
  fields of the MagicNetwork; \<^verbatim>\<open>RelayTCP\<close> is \<^verbatim>\<open>s.relay.RelayTCP(lConn, rConn)\<close>;
  \<^verbatim>\<open>RelayUoT d mark\<close> hands the dialer and the mark to the relay; \<^verbatim>\<open>CloseRemote\<close> is
  the deferred \<^verbatim>\<open>rConn.Close()\<close> of line 208.
\<close>

datatype action =
    Dial dialer string "32 word" string
  | RelayTCP
  | RelayUoT dialer int
  | CloseRemote

text \<open>
  The outcomes of the external calls of one stream: what \<^verbatim>\<open>lConn.Read(nil)\<close> of
  line 174 gives (an error, or the metadata of the header), the Dialer's answer to a
  call, and what the two relays return (\<^verbatim>\<open>None\<close> is a nil error).
\<close>

record outcomes =
  header :: "goerr + metadata"
  dial_result :: "string \<Rightarrow> string \<Rightarrow> goerr option"
  relayTCP_result :: "goerr option"
  relayUoT_result :: "goerr option"

text \<open>The classification of lines 211 and 224.\<close>

definition benign :: "goerr \<Rightarrow> bool" where
  "benign err = (errors_Is err EOF \<or> is_timeout err \<or> HasSuffix (Error err) ''with error code 0'')"

definition dispatch :: "server \<Rightarrow> outcomes \<Rightarrow> metadata \<Rightarrow> goerr option \<times> action list" where
  "dispatch s out mdata =
     (if Network mdata = ''tcp'' then
        (let target = JoinHostPort (Hostname mdata) (Itoa (uint (Port mdata)));
             call = Dial (dialer s) ''tcp'' (word_of_int (fwmark s)) target
         in case dial_result out ''tcp'' target of
              Some err \<Rightarrow> (if is_timeout err then (None, [call]) else (Some err, [call]))
            | None \<Rightarrow>
               (case relayTCP_result out of
                  Some err \<Rightarrow>
                    (if benign err then (None, [call, RelayTCP, CloseRemote])
                     else (Some (Wrapf ''relay tcp error: '' err ''''), [call, RelayTCP, CloseRemote]))
                | None \<Rightarrow> (None, [call, RelayTCP, CloseRemote])))
      else if Network mdata = ''udp'' then
        (case relayUoT_result out of
           Some err \<Rightarrow>
             (if benign err then (None, [RelayUoT (dialer s) (fwmark s)])
              else (Some (Wrapf ''relay udp error: '' err ''''), [RelayUoT (dialer s) (fwmark s)]))
         | None \<Rightarrow> (None, [RelayUoT (dialer s) (fwmark s)]))
      else (Some (Errorf (''unexpected network: '' @ Network mdata)), []))"

section \<open>The libraries the server calls\<close>

text \<open>
  The constants and functions of the imported packages that server.go uses and that
  are not part of this repository: the version and command bytes and the close code of
  the protocol packages, the parsers of google/uuid, crypto/tls and net/netip, and
  the token derivation \<^verbatim>\<open>tuic.GenToken\<close>. They are parameters of the model.
  \<^verbatim>\<open>uuid_String\<close> and \<^verbatim>\<open>CommandType_String\<close> are how \<^verbatim>\<open>%v\<close> prints the two types.
\<close>

datatype tls_state = Session nat

record lib =
  Version0 :: "8 word"
  AuthenticateType :: "8 word"
  AuthenticationFailed :: "64 word"
  uuid_Parse :: "string \<Rightarrow> goerr + uuid"
  uuid_String :: "uuid \<Rightarrow> string"
  CommandType_String :: "8 word \<Rightarrow> string"
  LoadX509KeyPair :: "string \<Rightarrow> string \<Rightarrow> goerr + string"
  ParseAddr :: "string \<Rightarrow> goerr + string"
  GenToken :: "tls_state \<Rightarrow> uuid \<Rightarrow> string \<Rightarrow> goerr + token"

section \<open>New (lines 62-98)\<close>

text \<open>
  \<^verbatim>\<open>Users\<close> lists the entries of the Go map in the order the \<^verbatim>\<open>range\<close> loop of
  line 64 visits them.
\<close>

record options =
  Users :: "(string \<times> string) list"
  Certificate :: string
  PrivateKey :: string
  CongestionControl :: string
  Fwmark :: int
  SendThrough :: string

fun parse_users :: "lib \<Rightarrow> (string \<times> string) list \<Rightarrow> (uuid \<rightharpoonup> string) \<Rightarrow> goerr + (uuid \<rightharpoonup> string)" where
  "parse_users l [] us = Inr us"
| "parse_users l ((u, password) # rest) us =
     (case uuid_Parse l u of
        Inl err \<Rightarrow> Inl (Wrapf (''parse uuid('' @ u @ ''): '') err [])
      | Inr i \<Rightarrow> parse_users l rest (us(i \<mapsto> password)))"

definition make_server :: "options \<Rightarrow> (uuid \<rightharpoonup> string) \<Rightarrow> string \<Rightarrow> dialer \<Rightarrow> server" where
  "make_server opts us cert d =
     \<lparr> dialer = d,
       tlsConfig = \<lparr> NextProtos = [''h3''], MinVersion = 772, Certificates = [cert] \<rparr>,
       maxOpenIncomingStreams = 100,
       congestionControl = CongestionControl opts,
       cwnd = 10,
       users = us,
       fwmark = Fwmark opts \<rparr>"

definition New :: "lib \<Rightarrow> options \<Rightarrow> goerr + server" where
  "New l opts =
     (case parse_users l (Users opts) Map.empty of
        Inl err \<Rightarrow> Inl err
      | Inr us \<Rightarrow>
         (case LoadX509KeyPair l (Certificate opts) (PrivateKey opts) of
            Inl err \<Rightarrow> Inl err
          | Inr cert \<Rightarrow>
             (if SendThrough opts \<noteq> [] then
                (case ParseAddr l (SendThrough opts) of
                   Inl err \<Rightarrow> Inl (Wrapf ''parse send_through: '' err [])
                 | Inr lAddr \<Rightarrow> Inr (make_server opts us cert (DirectDialerLaddr True lAddr)))
              else Inr (make_server opts us cert FullconeDirect))))"

section \<open>handleAuth (lines 235-278)\<close>

record command_head =
  VER :: "8 word"
  TYPE' :: "8 word"

record authenticate =
  UUID :: uuid
  TOKEN :: token

text \<open>
  What the connection gives the authentication attempt: its TLS state, whether a
  control stream arrives before the timeout (\<^verbatim>\<open>None\<close>: one does), the first byte,
  and what the two parsers of package tuic read from the stream.
\<close>

record auth_env =
  ConnectionState :: tls_state
  AcceptUniStream :: "goerr option"
  Peek :: "goerr + 8 word"
  ReadCommandHead :: "goerr + command_head"
  ReadAuthenticateWithHead :: "goerr + authenticate"

text \<open>
  The result, and the calls of \<^verbatim>\<open>conn.CloseWithError\<close> made on the way (code and
  reason), in order.
\<close>

definition handleAuth :: "lib \<Rightarrow> server \<Rightarrow> auth_env \<Rightarrow> (goerr + uuid) \<times> (64 word \<times> string) list" where
  "handleAuth l s env =
     (case AcceptUniStream env of
        Some err \<Rightarrow> (Inl err, [])
      | None \<Rightarrow>
         (case Peek env of
            Inl err \<Rightarrow> (Inl err, [])
          | Inr v \<Rightarrow>
             (if v = Version0 l then
                (case ReadCommandHead env of
                   Inl err \<Rightarrow> (Inl (Wrapf ''ReadCommandHead: '' err []), [])
                 | Inr commandHead \<Rightarrow>
                    (if TYPE' commandHead = AuthenticateType l then
                       (case ReadAuthenticateWithHead env of
                          Inl err \<Rightarrow> (Inl (Wrapf ''ReadAuthenticateWithHead: '' err []), [])
                        | Inr a \<Rightarrow>
                           (case users s (UUID a) of
                              Some password \<Rightarrow>
                                (case GenToken l (ConnectionState env) (UUID a) password of
                                   Inl err \<Rightarrow> (Inl (Wrapf ''GenToken: '' err []), [])
                                 | Inr tok \<Rightarrow>
                                    (if tok = TOKEN a then (Inr (UUID a), [])
                                     else (Inl (Wrapf [] ErrAuthenticationFailed ('': '' @ uuid_String l (UUID a))),
                                           [(AuthenticationFailed l, Error ErrAuthenticationFailed)])))
                            | None \<Rightarrow>
                                (Inl (Wrapf [] ErrAuthenticationFailed ('': '' @ uuid_String l (UUID a))), [])))
                     else (Inl (Wrapf [] ErrUnexpectedCmdType
                                  ('': '' @ CommandType_String l (TYPE' commandHead))), [])))
              else (Inl (Wrapf [] ErrUnexpectedVersion ('': ['' @ Itoa (uint v) @ '']'')), []))))"

section \<open>handleConn and its tasks (lines 138-183)\<close>

subsection \<open>The two cancellation scopes\<close>

text \<open>
  \<^verbatim>\<open>ctx\<close> (line 140) and its child \<^verbatim>\<open>authCtx\<close> (line 142). Neither has a deadline,
  so each is live until its cancel function is called, and then its \<^verbatim>\<open>Err()\<close> is
  context.Canceled and its \<^verbatim>\<open>Done()\<close> channel is closed. Cancelling \<^verbatim>\<open>ctx\<close> cancels
  the child with it, so the pair has three states: both live; \<^verbatim>\<open>authCtx\<close> done and
  \<^verbatim>\<open>ctx\<close> live; both done. (Package context closes the parent's channel before the
  child's, so whoever sees the child done by a call of \<^verbatim>\<open>cancel\<close> sees the parent
  done.) \<^verbatim>\<open>authDone\<close> and \<^verbatim>\<open>cancel\<close> are the two cancel functions; calling one again
  changes nothing.
\<close>

datatype scopes = Live | AuthResolved | RootCancelled

fun ctx_err :: "scopes \<Rightarrow> goerr option" where
  "ctx_err RootCancelled = Some Canceled"
| "ctx_err sc = None"

fun authCtx_err :: "scopes \<Rightarrow> goerr option" where
  "authCtx_err Live = None"
| "authCtx_err sc = Some Canceled"

fun authDone :: "scopes \<Rightarrow> scopes" where
  "authDone Live = AuthResolved"
| "authDone sc = sc"

fun cancel :: "scopes \<Rightarrow> scopes" where
  "cancel sc = RootCancelled"

subsection \<open>One stream task: handleStream, a step at a time\<close>

text \<open>
  The places where a stream task can stand, by line of server.go: about to read the
  header (174), waiting on \<^verbatim>\<open>authCtx.Done()\<close> (178), about to poll \<^verbatim>\<open>ctx.Done()\<close>
  (179), past the gate with the switch ahead (184), and returned. The deferred
  \<^verbatim>\<open>stream.Close()\<close> of line 171 runs at every return.
\<close>

datatype stream_pc =
    S174
  | S178 metadata
  | S179 metadata
  | S184 metadata
  | SReturned "goerr option"

record stream =
  pc :: stream_pc
  calls :: "action list"
  stream_closed :: bool

fun at_check :: "stream_pc \<Rightarrow> bool" where
  "at_check (S179 mdata) = True"
| "at_check p = False"

fun at_switch :: "stream_pc \<Rightarrow> bool" where
  "at_switch (S184 mdata) = True"
| "at_switch p = False"

definition new_stream :: stream where
  "new_stream = \<lparr> pc = S174, calls = [], stream_closed = False \<rparr>"

definition handleStream_step :: "server \<Rightarrow> outcomes \<Rightarrow> scopes \<Rightarrow> stream \<Rightarrow> stream" where
  "handleStream_step s out sc st =
     (case pc st of
        S174 \<Rightarrow>
          (case header out of
             Inl err \<Rightarrow> st\<lparr>pc := SReturned (Some err), stream_closed := True\<rparr>
           | Inr mdata \<Rightarrow> st\<lparr>pc := S178 mdata\<rparr>)
      | S178 mdata \<Rightarrow> (if authCtx_err sc = None then st else st\<lparr>pc := S179 mdata\<rparr>)
      | S179 mdata \<Rightarrow>
          (case ctx_err sc of
             Some err \<Rightarrow> st\<lparr>pc := SReturned (Some err), stream_closed := True\<rparr>
           | None \<Rightarrow> st\<lparr>pc := S184 mdata\<rparr>)
      | S184 mdata \<Rightarrow>
          (case dispatch s out mdata of
             (r, acts) \<Rightarrow> st\<lparr>pc := SReturned r, calls := calls st @ acts, stream_closed := True\<rparr>)
      | SReturned r \<Rightarrow> st)"

subsection \<open>The connection\<close>

text \<open>
  The accept loop stands at line 156, or has left it with the error of
  \<^verbatim>\<open>AcceptStream\<close> and runs the deferred calls, last deferred first: \<^verbatim>\<open>authDone()\<close>
  (line 143), then \<^verbatim>\<open>cancel()\<close> (line 141). The authentication task stands before
  \<^verbatim>\<open>handleAuth\<close> (145), before \<^verbatim>\<open>cancel()\<close> (149), before \<^verbatim>\<open>CloseWithError\<close> (150),
  before \<^verbatim>\<open>authDone()\<close> (153), or has ended: at the \<^verbatim>\<open>return\<close> of line 151 after a
  failure, at line 154 after a success. Line 139, which sets the congestion controller
  of the connection, touches nothing of this and is left out.
\<close>

datatype loop_pc = C156 | CDefer143 goerr | CDefer141 goerr | CReturned goerr

datatype auth_pc = A145 | A149 | A150 | A151 | A153 | A154

text \<open>
  \<^verbatim>\<open>close_calls\<close> are the calls of \<^verbatim>\<open>conn.CloseWithError\<close> so far (code and reason);
  \<^verbatim>\<open>warns\<close> the entries written with \<^verbatim>\<open>s.logger.Warn()\<close> (error and message).
\<close>

record conn_state =
  scopes :: scopes
  close_calls :: "(64 word \<times> string) list"
  warns :: "(goerr \<times> string) list"
  accept_loop :: loop_pc
  auth_task :: auth_pc
  streams :: "stream list"

definition init_conn :: conn_state where
  "init_conn =
     \<lparr> scopes = Live,
       close_calls = [], warns = [], accept_loop = C156, auth_task = A145, streams = [] \<rparr>"

text \<open>
  A connection is closed by the first \<^verbatim>\<open>CloseWithError\<close>; a later call on the closed
  connection changes nothing. The peer is sent the code and the reason of the first.
\<close>

definition observed_close :: "conn_state \<Rightarrow> (64 word \<times> string) option" where
  "observed_close c = (case close_calls c of [] \<Rightarrow> None | x # xs \<Rightarrow> Some x)"

text \<open>The task of lines 144-154.\<close>

definition authTask_step :: "lib \<Rightarrow> server \<Rightarrow> auth_env \<Rightarrow> conn_state \<Rightarrow> conn_state" where
  "authTask_step l s env c =
     (case auth_task c of
        A145 \<Rightarrow>
          (case handleAuth l s env of
             (Inl err, closes) \<Rightarrow>
               c\<lparr>close_calls := close_calls c @ closes,
                 warns := warns c @ [(err, ''handleAuth'')],
                 auth_task := A149\<rparr>
           | (Inr u, closes) \<Rightarrow> c\<lparr>close_calls := close_calls c @ closes, auth_task := A153\<rparr>)
      | A149 \<Rightarrow> c\<lparr>scopes := cancel (scopes c), auth_task := A150\<rparr>
      | A150 \<Rightarrow> c\<lparr>close_calls := close_calls c @ [(AuthenticationFailed l, [])], auth_task := A151\<rparr>
      | A151 \<Rightarrow> c
      | A153 \<Rightarrow> c\<lparr>scopes := authDone (scopes c), auth_task := A154\<rparr>
      | A154 \<Rightarrow> c)"

text \<open>
  The loop of lines 155-167 and the deferred calls. \<^verbatim>\<open>AcceptStream(ctx)\<close> hands over a
  stream, fails with an error of the transport, or returns \<^verbatim>\<open>ctx.Err()\<close> once \<^verbatim>\<open>ctx\<close>
  is done.
\<close>

datatype accept_result = Accepted | AcceptError goerr | AcceptCtxDone

definition handleConn_step :: "accept_result \<Rightarrow> conn_state \<Rightarrow> conn_state" where
  "handleConn_step a c =
     (case accept_loop c of
        C156 \<Rightarrow>
          (case a of
             Accepted \<Rightarrow> c\<lparr>streams := streams c @ [new_stream]\<rparr>
           | AcceptError err \<Rightarrow> c\<lparr>accept_loop := CDefer143 err\<rparr>
           | AcceptCtxDone \<Rightarrow>
               (case ctx_err (scopes c) of
                  None \<Rightarrow> c
                | Some err \<Rightarrow> c\<lparr>accept_loop := CDefer143 err\<rparr>))
      | CDefer143 err \<Rightarrow> c\<lparr>scopes := authDone (scopes c), accept_loop := CDefer141 err\<rparr>
      | CDefer141 err \<Rightarrow> c\<lparr>scopes := cancel (scopes c), accept_loop := CReturned err\<rparr>
      | CReturned err \<Rightarrow> c)"

text \<open>The task of lines 160-166 around handleStream: a result that is not nil is logged.\<close>

definition streamTask_step :: "server \<Rightarrow> nat \<Rightarrow> outcomes \<Rightarrow> conn_state \<Rightarrow> conn_state" where
  "streamTask_step s i out c =
     (if i < length (streams c) then
        (let st = streams c ! i; st' = handleStream_step s out (scopes c) st
         in c\<lparr>streams := (streams c)[i := st'],
              warns := warns c @
                (case pc st' of
                   SReturned (Some err) \<Rightarrow> (if pc st = pc st' then [] else [(err, [])])
                 | _ \<Rightarrow> [])\<rparr>)
      else c)"

text \<open>
  One step of one task, chosen by the scheduler, with what the outside answers to the
  call the task makes in that step. A task that cannot move (a stream waiting at line
  178, \<^verbatim>\<open>AcceptStream\<close> waiting for \<^verbatim>\<open>ctx\<close>) leaves the state as it is.
\<close>

datatype event = AuthStep auth_env | ConnStep accept_result | StreamStep nat outcomes

fun step :: "lib \<Rightarrow> server \<Rightarrow> conn_state \<Rightarrow> event \<Rightarrow> conn_state" where
  "step l s c (AuthStep env) = authTask_step l s env c"
| "step l s c (ConnStep a) = handleConn_step a c"
| "step l s c (StreamStep i out) = streamTask_step s i out c"

definition run :: "lib \<Rightarrow> server \<Rightarrow> event list \<Rightarrow> conn_state \<Rightarrow> conn_state" where
  "run l s evs c = foldl (step l s) c evs"

section \<open>The gate over the runs of a connection\<close>

text \<open>
  The gate is shut: the root scope is cancelled, and no stream stands past the gate or
  has called the Dialer or a relay.
\<close>

definition gate_shut :: "conn_state \<Rightarrow> bool" where
  "gate_shut c =
     (scopes c = RootCancelled \<and> (\<forall>st \<in> set (streams c). \<not> at_switch (pc st) \<and> calls st = []))"

text \<open>
  What holds of every state a connection reaches from \<^verbatim>\<open>init_conn\<close>: once the
  authentication task is past its \<^verbatim>\<open>cancel()\<close> the root scope is cancelled; while
  handleConn is in its loop and the task has not called \<^verbatim>\<open>authDone()\<close>, the auth scope
  is not done on its own and no stream is past the gate or has made a call; and a stream
  stands at the check of line 179 only when the auth scope is done.
\<close>

definition gate_inv :: "conn_state \<Rightarrow> bool" where
  "gate_inv c =
     ((auth_task c = A150 \<or> auth_task c = A151 \<longrightarrow> scopes c = RootCancelled)
      \<and> (accept_loop c = C156 \<and> auth_task c \<noteq> A154 \<longrightarrow>
           scopes c \<noteq> AuthResolved \<and>
           (\<forall>st \<in> set (streams c). \<not> at_switch (pc st) \<and> calls st = []))
      \<and> (\<forall>st \<in> set (streams c). at_check (pc st) \<longrightarrow> scopes c \<noteq> Live))"

section \<open>Serve (lines 100-136)\<close>

subsection \<open>The arithmetic of lines 101-102\<close>

text \<open>
  Line 102 computes in float64: the limit is converted, divided by 10.0, rounded up by
  \<^verbatim>\<open>math.Ceil\<close> and converted back. \<^verbatim>\<open>float64 q\<close> is the float64 nearest to the
  rational \<open>q\<close> (ties to the even significand), given as a rational: the significand
  has 53 bits, so with \<open>2 ^ e\<close> the weight of its last bit, \<open>\<bar>q\<bar> / 2 ^ e\<close> is rounded to
  an integer. Overflow and subnormal numbers are left out: the limit is an int64, and
  the numbers of line 102 are zero or between 1/10 and \<open>2 ^ 63\<close>. The constant 10.0
  is a float64.
\<close>

definition round_half_even :: "rat \<Rightarrow> int" where
  "round_half_even r =
     (let f = \<lfloor>r\<rfloor>; d = r - of_int f
      in if d < 1 / 2 then f else if 1 / 2 < d then f + 1 else if even f then f else f + 1)"

definition float64_exponent :: "rat \<Rightarrow> int" where
  "float64_exponent q =
     (case quotient_of \<bar>q\<bar> of (a, b) \<Rightarrow>
        (let k = bitlen a - bitlen b in (if 2 powi k \<le> \<bar>q\<bar> then k else k - 1) - 52))"

definition float64 :: "rat \<Rightarrow> rat" where
  "float64 q =
     (if q = 0 then 0
      else (let e = float64_exponent q
            in sgn q * of_int (round_half_even (\<bar>q\<bar> / 2 powi e)) * 2 powi e))"

text \<open>The conversion to int64 and the sum in int64: two's complement, 64 bits.\<close>

definition int64 :: "int \<Rightarrow> int" where
  "int64 i = signed_take_bit 63 i"

subsection \<open>The configuration of the listener\<close>

text \<open>
  The fields of \<^verbatim>\<open>quic.Config\<close> that lines 104-115 set from the server or to a fixed
  value (\<^verbatim>\<open>KeepAlivePeriod\<close> in seconds); the four receive windows are constants of
  package common.
\<close>

record quic_config =
  MaxIncomingStreams :: int
  MaxIncomingUniStreams :: int
  KeepAlivePeriod :: nat
  DisablePathMTUDiscovery :: bool
  EnableDatagrams :: bool

definition Serve_quic_config :: "server \<Rightarrow> quic_config" where
  "Serve_quic_config s =
     (let q = int64 (maxOpenIncomingStreams s);
          quicMaxOpenIncomingStreams = int64 (q + int64 \<lceil>float64 (float64 (of_int q) / 10)\<rceil>)
      in \<lparr> MaxIncomingStreams = quicMaxOpenIncomingStreams,
           MaxIncomingUniStreams = quicMaxOpenIncomingStreams,
           KeepAlivePeriod = 10,
           DisablePathMTUDiscovery = False,
           EnableDatagrams = False \<rparr>)"

subsection \<open>The accept loop\<close>

text \<open>The task of lines 124-134 around handleConn: what it logs for a result.\<close>

definition Serve_task :: "goerr option \<Rightarrow> (goerr \<times> string) list" where
  "Serve_task r =
     (case r of
        None \<Rightarrow> []
      | Some err \<Rightarrow> (if is_timeout err then [] else [(err, [])]))"

text \<open>
  The loop of lines 119-135 over what \<^verbatim>\<open>listener.Accept\<close> returns: an error, or a
  connection, given by what its handleConn returns in the end. The result is the
  error Serve returns (\<^verbatim>\<open>None\<close> while it is still accepting), the number of
  connections it has started a task for, and the warnings of these tasks.
\<close>

fun Serve_loop :: "(goerr + goerr option) list \<Rightarrow> goerr option \<times> nat \<times> (goerr \<times> string) list" where
  "Serve_loop [] = (None, 0, [])"
| "Serve_loop (Inl err # rest) = (Some err, 0, [])"
| "Serve_loop (Inr r # rest) =
     (case Serve_loop rest of (e, n, ws) \<Rightarrow> (e, Suc n, Serve_task r @ ws))"

section \<open>Sample values\<close>

text \<open>
  One instance of the library parameters, a server, and the inputs the theorems below
  are evaluated on. The sample server knows the identifier 1 with the secret \<^verbatim>\<open>S1\<close>.
\<close>

definition lib0 :: lib where
  "lib0 =
     \<lparr> Version0 = 0, AuthenticateType = 0, AuthenticationFailed = 0xfffffff1,
       uuid_Parse = (\<lambda>str.
          if str = ''00000000-0000-0000-0000-000000000001'' then Inr 1
          else if str = ''00000000-0000-0000-0000-000000000002'' then Inr 2
          else Inl (LibError ''invalid UUID format'')),
       uuid_String = (\<lambda>u.
          if u = 1 then ''00000000-0000-0000-0000-000000000001''
          else if u = 2 then ''00000000-0000-0000-0000-000000000002''
          else ''ffffffff-ffff-ffff-ffff-ffffffffffff''),
       CommandType_String = (\<lambda>t. Itoa (uint t)),
       LoadX509KeyPair = (\<lambda>c k.
          if c = ''cert.pem'' \<and> k = ''key.pem'' then Inr ''cert''
          else Inl (LibError ''open: no such file or directory'')),
       ParseAddr = (\<lambda>a. if a = ''192.0.2.1'' then Inr a else Inl (LibError ''unable to parse IP'')),
       GenToken = (\<lambda>st u pw. case st of Session k \<Rightarrow> Inr (word_of_nat (k + unat u + length pw))) \<rparr>"

definition opts0 :: options where
  "opts0 =
     \<lparr> Users = [(''00000000-0000-0000-0000-000000000001'', ''S1'')],
       Certificate = ''cert.pem'', PrivateKey = ''key.pem'', CongestionControl = ''bbr'',
       Fwmark = 0, SendThrough = [] \<rparr>"

definition srv0 :: server where
  "srv0 = make_server opts0 [1 \<mapsto> ''S1''] ''cert'' FullconeDirect"

definition md_tcp :: metadata where
  "md_tcp = \<lparr> Network = ''tcp'', Hostname = ''example.com'', Port = 80 \<rparr>"

definition md_udp :: metadata where
  "md_udp = \<lparr> Network = ''udp'', Hostname = ''example.com'', Port = 53 \<rparr>"

definition md_icmp :: metadata where
  "md_icmp = \<lparr> Network = ''icmp'', Hostname = ''example.com'', Port = 80 \<rparr>"

text \<open>Every external call of a stream succeeds; the header carries the given metadata.\<close>

definition out_ok :: "metadata \<Rightarrow> outcomes" where
  "out_ok md = \<lparr> header = Inr md, dial_result = (\<lambda>n t. None), relayTCP_result = None, relayUoT_result = None \<rparr>"

definition stream_at :: "stream_pc \<Rightarrow> stream" where
  "stream_at p = \<lparr> pc = p, calls = [], stream_closed = False \<rparr>"

text \<open>
  Control streams: one that carries the authenticate command of identifier 1 with the
  token the sample \<^verbatim>\<open>GenToken\<close> derives for it, and the ways it can go wrong.
\<close>

definition env_good :: auth_env where
  "env_good =
     \<lparr> ConnectionState = Session 7, AcceptUniStream = None, Peek = Inr 0,
       ReadCommandHead = Inr \<lparr> VER = 0, TYPE' = 0 \<rparr>,
       ReadAuthenticateWithHead = Inr \<lparr> UUID = 1, TOKEN = 10 \<rparr> \<rparr>"

definition env_bad_token :: auth_env where
  "env_bad_token = env_good\<lparr>ReadAuthenticateWithHead := Inr \<lparr> UUID = 1, TOKEN = 11 \<rparr>\<rparr>"

definition env_unknown_id :: auth_env where
  "env_unknown_id = env_good\<lparr>ReadAuthenticateWithHead := Inr \<lparr> UUID = 2, TOKEN = 11 \<rparr>\<rparr>"

definition env_no_stream :: auth_env where
  "env_no_stream = env_good\<lparr>AcceptUniStream := Some DeadlineExceeded\<rparr>"

definition env_truncated :: auth_env where
  "env_truncated = env_good\<lparr>ReadAuthenticateWithHead := Inl EOF\<rparr>"

definition env_bad_version :: auth_env where
  "env_bad_version = env_good\<lparr>Peek := Inr 5\<rparr>"

definition env_bad_cmd :: auth_env where
  "env_bad_cmd = env_good\<lparr>ReadCommandHead := Inr \<lparr> VER = 0, TYPE' = 1 \<rparr>\<rparr>"

section \<open>Theorems\<close>

subsection \<open>C1: the gate\<close>

lemma handleStream_step_at_switch:
  "at_switch (pc (handleStream_step s out sc st)) \<Longrightarrow> at_check (pc st) \<and> ctx_err sc = None"
  by (cases "pc st")
    (auto simp: handleStream_step_def split: sum.splits option.splits if_splits prod.splits)

lemma handleStream_step_calls:
  "\<not> at_switch (pc st) \<Longrightarrow> calls (handleStream_step s out sc st) = calls st"
  by (cases "pc st")
    (auto simp: handleStream_step_def split: sum.splits option.splits if_splits prod.splits)

lemma handleStream_step_at_check:
  "at_check (pc (handleStream_step s out sc st)) \<Longrightarrow> sc \<noteq> Live"
  by (cases "pc st")
    (auto simp: handleStream_step_def split: sum.splits option.splits if_splits prod.splits)

lemma in_set_update: "x \<in> set (xs[i := y]) \<Longrightarrow> x = y \<or> x \<in> set xs"
  using set_update_subset_insert [of xs i y] by auto

lemma authDone_cases: "authDone sc = (if sc = Live then AuthResolved else sc)"
  by (cases sc) simp_all

lemma gate_shut_step: "gate_shut c \<Longrightarrow> gate_shut (step l s c e)"
proof (cases e)
  case (AuthStep env)
  assume "gate_shut c"
  then show ?thesis using AuthStep
    by (cases "auth_task c")
      (auto simp: gate_shut_def authTask_step_def split: prod.splits sum.splits)
next
  case (ConnStep a)
  assume "gate_shut c"
  then show ?thesis using ConnStep
    by (cases "accept_loop c"; cases a)
      (auto simp: gate_shut_def handleConn_step_def new_stream_def)
next
  case (StreamStep i out)
  assume g: "gate_shut c"
  show ?thesis
  proof (cases "i < length (streams c)")
    case False
    then show ?thesis using g StreamStep by (simp add: streamTask_step_def)
  next
    case True
    define st where "st = streams c ! i"
    define st' where "st' = handleStream_step s out (scopes c) st"
    have m: "st \<in> set (streams c)" using True by (simp add: st_def)
    then have o: "\<not> at_switch (pc st)" "calls st = []" using g by (auto simp: gate_shut_def)
    have n: "\<not> at_switch (pc st')"
      using handleStream_step_at_switch [of s out "scopes c" st] g
      by (auto simp: st'_def gate_shut_def)
    have k: "calls st' = []"
      using handleStream_step_calls [OF o(1), of s out "scopes c"] o(2) by (simp add: st'_def)
    have "streams (step l s c e) = (streams c)[i := st']" "scopes (step l s c e) = scopes c"
      using True StreamStep by (simp_all add: streamTask_step_def Let_def st_def st'_def)
    then show ?thesis using g n k by (auto simp: gate_shut_def dest!: in_set_update)
  qed
qed

lemma gate_shut_run: "gate_shut c \<Longrightarrow> gate_shut (run l s evs c)"
  unfolding run_def by (induction evs arbitrary: c) (simp_all add: gate_shut_step)

lemma gate_inv_init: "gate_inv init_conn"
  by (simp add: gate_inv_def init_conn_def)

lemma gate_inv_step: "gate_inv c \<Longrightarrow> gate_inv (step l s c e)"
proof (cases e)
  case (AuthStep env)
  assume "gate_inv c"
  then show ?thesis using AuthStep
    by (cases "auth_task c")
      (auto simp: gate_inv_def authTask_step_def authDone_cases split: prod.splits sum.splits)
next
  case (ConnStep a)
  assume "gate_inv c"
  then show ?thesis using ConnStep
    by (cases "accept_loop c"; cases a)
      (auto simp: gate_inv_def handleConn_step_def new_stream_def authDone_cases
            split: option.splits)
next
  case (StreamStep i out)
  assume g: "gate_inv c"
  show ?thesis
  proof (cases "i < length (streams c)")
    case False
    then show ?thesis using g StreamStep by (simp add: streamTask_step_def)
  next
    case True
    define st where "st = streams c ! i"
    define st' where "st' = handleStream_step s out (scopes c) st"
    have m: "st \<in> set (streams c)" using True by (simp add: st_def)
    have eq: "streams (step l s c e) = (streams c)[i := st']" "scopes (step l s c e) = scopes c"
      "auth_task (step l s c e) = auth_task c" "accept_loop (step l s c e) = accept_loop c"
      using True StreamStep by (simp_all add: streamTask_step_def Let_def st_def st'_def)
    have a: "at_check (pc st') \<longrightarrow> scopes c \<noteq> Live"
      using handleStream_step_at_check [of s out "scopes c" st] by (simp add: st'_def)
    have b: "accept_loop c = C156 \<and> auth_task c \<noteq> A154 \<longrightarrow> \<not> at_switch (pc st') \<and> calls st' = []"
    proof (intro impI)
      assume p: "accept_loop c = C156 \<and> auth_task c \<noteq> A154"
      then have q: "scopes c \<noteq> AuthResolved" "\<not> at_switch (pc st)" "calls st = []"
        using g m by (auto simp: gate_inv_def)
      have "\<not> at_switch (pc st')"
      proof
        assume "at_switch (pc st')"
        then have "at_check (pc st)" "ctx_err (scopes c) = None"
          using handleStream_step_at_switch [of s out "scopes c" st] by (simp_all add: st'_def)
        moreover have "scopes c \<noteq> Live" using g m \<open>at_check (pc st)\<close> by (auto simp: gate_inv_def)
        ultimately show False using q(1) by (cases "scopes c") simp_all
      qed
      moreover have "calls st' = []"
        using handleStream_step_calls [OF q(2), of s out "scopes c"] q(3) by (simp add: st'_def)
      ultimately show "\<not> at_switch (pc st') \<and> calls st' = []" by simp
    qed
    show ?thesis
      unfolding gate_inv_def eq using g a b
      by (auto simp: gate_inv_def dest!: in_set_update)
  qed
qed

lemma gate_inv_run: "gate_inv c \<Longrightarrow> gate_inv (run l s evs c)"
  unfolding run_def by (induction evs arbitrary: c) (simp_all add: gate_inv_step)

lemma gate_inv_reachable: "gate_inv (run l s evs init_conn)"
  by (rule gate_inv_run [OF gate_inv_init])

text \<open>
  As stated, C1 says that handleStream, for every accepted stream, first waits for the
  auth scope and then returns the root scope's cancellation error if the root scope is
  cancelled. The header is read before the gate (lines 174-177): a stream whose header
  cannot be read returns the read error, not the root scope's error, on a connection
  whose root scope is cancelled, and it returns without waiting while both scopes are
  live.
\<close>

theorem C1_counterexample:
  "handleStream_step srv0 ((out_ok md_tcp)\<lparr>header := Inl EOF\<rparr>) RootCancelled new_stream
     = \<lparr> pc = SReturned (Some EOF), calls = [], stream_closed = True \<rparr>
   \<and> ctx_err RootCancelled = Some Canceled \<and> EOF \<noteq> Canceled
   \<and> handleStream_step srv0 ((out_ok md_tcp)\<lparr>header := Inl EOF\<rparr>) Live new_stream
     = \<lparr> pc = SReturned (Some EOF), calls = [], stream_closed = True \<rparr>
   \<and> authCtx_err Live = None"
  by (simp add: handleStream_step_def new_stream_def out_ok_def)

text \<open>
  C1 (amended). A stream whose header has been read waits at line 178 until the auth
  scope is done, and only then polls the root scope (line 179): if the root scope is
  cancelled, the stream returns the root scope's error, closed, without a call of the
  Dialer or a relay. Hence, on a connection whose authentication task has failed and
  cancelled the root scope while handleConn is still in its accept loop, no stream
  opened on the connection, before or after, ever passes the gate or calls the Dialer
  or a relay: every such stream relays zero bytes.
\<close>

theorem C1_gate:
  "(pc st = S178 mdata \<longrightarrow>
      handleStream_step s out sc st = (if authCtx_err sc = None then st else st\<lparr>pc := S179 mdata\<rparr>))
   \<and> (pc st = S179 mdata \<and> ctx_err sc = Some err \<longrightarrow>
      handleStream_step s out sc st = st\<lparr>pc := SReturned (Some err), stream_closed := True\<rparr>)
   \<and> (c = run l s evs init_conn \<and> (auth_task c = A150 \<or> auth_task c = A151) \<and> accept_loop c = C156 \<longrightarrow>
      (\<forall>st \<in> set (streams (run l s evs' c)). \<not> at_switch (pc st) \<and> calls st = []))"
proof (intro conjI impI)
  show "handleStream_step s out sc st = (if authCtx_err sc = None then st else st\<lparr>pc := S179 mdata\<rparr>)"
    if "pc st = S178 mdata"
    using that by (simp add: handleStream_step_def)
  show "handleStream_step s out sc st = st\<lparr>pc := SReturned (Some err), stream_closed := True\<rparr>"
    if "pc st = S179 mdata \<and> ctx_err sc = Some err"
    using that by (simp add: handleStream_step_def)
  show "\<forall>st \<in> set (streams (run l s evs' c)). \<not> at_switch (pc st) \<and> calls st = []"
    if h: "c = run l s evs init_conn \<and> (auth_task c = A150 \<or> auth_task c = A151) \<and> accept_loop c = C156"
  proof -
    have "gate_inv c" using h gate_inv_reachable by simp
    then have "gate_shut c" using h by (auto simp: gate_inv_def gate_shut_def)
    then have "gate_shut (run l s evs' c)" by (rule gate_shut_run)
    then show ?thesis by (simp add: gate_shut_def)
  qed
qed

theorem C1_gate_witness:
  "auth_task (run lib0 srv0
      [ConnStep Accepted, StreamStep 0 (out_ok md_tcp), AuthStep env_unknown_id, AuthStep env_unknown_id]
      init_conn) = A150
   \<and> accept_loop (run lib0 srv0
      [ConnStep Accepted, StreamStep 0 (out_ok md_tcp), AuthStep env_unknown_id, AuthStep env_unknown_id]
      init_conn) = C156
   \<and> streams (run lib0 srv0
      [ConnStep Accepted, StreamStep 0 (out_ok md_tcp), AuthStep env_unknown_id, AuthStep env_unknown_id,
       StreamStep 0 (out_ok md_tcp), StreamStep 0 (out_ok md_tcp), StreamStep 0 (out_ok md_tcp),
       ConnStep Accepted, StreamStep 1 (out_ok md_udp)]
      init_conn)
     = [\<lparr> pc = SReturned (Some Canceled), calls = [], stream_closed = True \<rparr>,
        \<lparr> pc = S178 md_udp, calls = [], stream_closed = False \<rparr>]
   \<and> handleStream_step srv0 (out_ok md_tcp) Live (stream_at (S178 md_tcp)) = stream_at (S178 md_tcp)
   \<and> handleStream_step srv0 (out_ok md_tcp) RootCancelled (stream_at (S178 md_tcp)) = stream_at (S179 md_tcp)
   \<and> handleStream_step srv0 (out_ok md_tcp) RootCancelled (stream_at (S179 md_tcp))
       = \<lparr> pc = SReturned (Some Canceled), calls = [], stream_closed = True \<rparr>"
  using C1_gate [of "stream_at (S178 md_tcp)" md_tcp srv0 "out_ok md_tcp" Live]
    C1_gate [of "stream_at (S179 md_tcp)" md_tcp srv0 "out_ok md_tcp" RootCancelled Canceled]
    C1_gate [of "stream_at (S178 md_tcp)" md_tcp srv0 "out_ok md_tcp" RootCancelled Canceled
      "run lib0 srv0
        [ConnStep Accepted, StreamStep 0 (out_ok md_tcp), AuthStep env_unknown_id, AuthStep env_unknown_id]
        init_conn"
      lib0
      "[ConnStep Accepted, StreamStep 0 (out_ok md_tcp), AuthStep env_unknown_id, AuthStep env_unknown_id]"
      "[StreamStep 0 (out_ok md_tcp), StreamStep 0 (out_ok md_tcp), StreamStep 0 (out_ok md_tcp),
        ConnStep Accepted, StreamStep 1 (out_ok md_udp)]"]
  by (simp add: run_def authTask_step_def handleConn_step_def streamTask_step_def handleStream_step_def
      handleAuth_def init_conn_def new_stream_def out_ok_def stream_at_def Let_def
      env_unknown_id_def env_good_def lib0_def srv0_def make_server_def)

text \<open>
  The condition that handleConn is still in its loop cannot be dropped. When
  \<^verbatim>\<open>AcceptStream\<close> fails while authentication is pending, handleConn runs its deferred
  calls, \<^verbatim>\<open>authDone()\<close> before \<^verbatim>\<open>cancel()\<close>. In the run below a stream that waits at line
  178 takes its two steps through the gate between the two calls and goes on to dial;
  handleAuth, whose scope is now cancelled, fails afterwards.
\<close>

lemma gate_open_between_deferred_calls:
  "(let c = run lib0 srv0
       [ConnStep Accepted, StreamStep 0 (out_ok md_tcp),
        ConnStep (AcceptError (LibError ''Application error 0x0 (remote)'')),
        ConnStep AcceptCtxDone,
        StreamStep 0 (out_ok md_tcp), StreamStep 0 (out_ok md_tcp),
        ConnStep AcceptCtxDone,
        StreamStep 0 (out_ok md_tcp),
        AuthStep (env_good\<lparr>AcceptUniStream := Some Canceled\<rparr>),
        AuthStep env_good, AuthStep env_good] init_conn
    in auth_task c = A151
       \<and> accept_loop c = CReturned (LibError ''Application error 0x0 (remote)'')
       \<and> scopes c = RootCancelled
       \<and> streams c =
           [\<lparr> pc = SReturned None,
              calls = [Dial FullconeDirect ''tcp'' 0 ''example.com:80'', RelayTCP, CloseRemote],
              stream_closed = True \<rparr>])"
  by (simp add: run_def authTask_step_def handleConn_step_def streamTask_step_def handleStream_step_def
      handleAuth_def dispatch_def init_conn_def new_stream_def out_ok_def Let_def md_tcp_def
      env_good_def lib0_def srv0_def opts0_def make_server_def JoinHostPort_def Itoa_def digit_char_def)

subsection \<open>C2: the end of the authentication task\<close>

lemma authDone_sets: "authCtx_err (authDone sc) = Some Canceled" "ctx_err (authDone sc) = ctx_err sc"
  by (cases sc; simp)+

text \<open>
  C2. Let the authentication task start (line 145) in any state of the connection.
  If handleAuth fails, the task logs the error, cancels the root scope, by which the
  auth scope is done as well and every waiter on it is released, and calls
  \<^verbatim>\<open>CloseWithError\<close> with the authentication-failure code and an empty reason; on a
  connection that was open, the close the peer observes carries that code. If
  handleAuth succeeds, the task resolves the auth scope and nothing else: the root scope
  is as it was (live, if it was live), nothing is logged and the connection is not
  closed.
\<close>

theorem C2_auth_task:
  "auth_task c = A145 \<Longrightarrow>
   (\<forall>err. fst (handleAuth l s env) = Inl err \<longrightarrow>
      (let c' = authTask_step l s e3 (authTask_step l s e2 (authTask_step l s env c)) in
         auth_task c' = A151
         \<and> ctx_err (scopes c') \<noteq> None \<and> authCtx_err (scopes c') \<noteq> None
         \<and> close_calls c' = close_calls c @ snd (handleAuth l s env) @ [(AuthenticationFailed l, [])]
         \<and> warns c' = warns c @ [(err, ''handleAuth'')]
         \<and> (close_calls c = [] \<longrightarrow> (\<exists>reason. observed_close c' = Some (AuthenticationFailed l, reason)))))
   \<and> (\<forall>u. fst (handleAuth l s env) = Inr u \<longrightarrow>
      (let c' = authTask_step l s e2 (authTask_step l s env c) in
         auth_task c' = A154
         \<and> authCtx_err (scopes c') \<noteq> None
         \<and> ctx_err (scopes c') = ctx_err (scopes c)
         \<and> close_calls c' = close_calls c
         \<and> warns c' = warns c))"
proof (intro conjI allI impI)
  fix err
  assume a: "auth_task c = A145" and f: "fst (handleAuth l s env) = Inl err"
  obtain closes where h: "handleAuth l s env = (Inl err, closes)"
    using f by (cases "handleAuth l s env") auto
  have cl: "closes = [] \<or> closes = [(AuthenticationFailed l, Error ErrAuthenticationFailed)]"
    using h by (auto simp: handleAuth_def split: option.splits sum.splits if_splits)
  show "let c' = authTask_step l s e3 (authTask_step l s e2 (authTask_step l s env c)) in
         auth_task c' = A151
         \<and> ctx_err (scopes c') \<noteq> None \<and> authCtx_err (scopes c') \<noteq> None
         \<and> close_calls c' = close_calls c @ snd (handleAuth l s env) @ [(AuthenticationFailed l, [])]
         \<and> warns c' = warns c @ [(err, ''handleAuth'')]
         \<and> (close_calls c = [] \<longrightarrow> (\<exists>reason. observed_close c' = Some (AuthenticationFailed l, reason)))"
    using a h cl by (auto simp: authTask_step_def Let_def observed_close_def)
next
  fix u
  assume a: "auth_task c = A145" and f: "fst (handleAuth l s env) = Inr u"
  obtain closes where h: "handleAuth l s env = (Inr u, closes)"
    using f by (cases "handleAuth l s env") auto
  have cl: "closes = []"
    using h by (auto simp: handleAuth_def split: option.splits sum.splits if_splits)
  show "let c' = authTask_step l s e2 (authTask_step l s env c) in
         auth_task c' = A154
         \<and> authCtx_err (scopes c') \<noteq> None
         \<and> ctx_err (scopes c') = ctx_err (scopes c)
         \<and> close_calls c' = close_calls c
         \<and> warns c' = warns c"
    using a h cl by (simp add: authTask_step_def Let_def authDone_sets)
qed

theorem C2_auth_task_witness:
  "auth_task init_conn = A145
   \<and> fst (handleAuth lib0 srv0 env_unknown_id)
       = Inl (Wrapf [] ErrAuthenticationFailed '': 00000000-0000-0000-0000-000000000002'')
   \<and> scopes (authTask_step lib0 srv0 env_good (authTask_step lib0 srv0 env_good
        (authTask_step lib0 srv0 env_unknown_id init_conn))) = RootCancelled
   \<and> observed_close (authTask_step lib0 srv0 env_good (authTask_step lib0 srv0 env_good
        (authTask_step lib0 srv0 env_unknown_id init_conn))) = Some (AuthenticationFailed lib0, [])
   \<and> fst (handleAuth lib0 srv0 env_good) = Inr 1
   \<and> scopes (authTask_step lib0 srv0 env_good (authTask_step lib0 srv0 env_good init_conn)) = AuthResolved
   \<and> close_calls (authTask_step lib0 srv0 env_good (authTask_step lib0 srv0 env_good init_conn)) = []"
proof -
  have a: "auth_task init_conn = A145" by (simp add: init_conn_def)
  from C2_auth_task [OF a, of lib0 srv0 env_unknown_id env_good env_good]
    C2_auth_task [OF a, of lib0 srv0 env_good env_good env_good]
  show ?thesis
    by (simp add: authTask_step_def handleAuth_def init_conn_def
        observed_close_def 
        env_unknown_id_def env_good_def lib0_def srv0_def make_server_def)
qed

subsection \<open>C3: the outcomes of handleAuth\<close>

text \<open>
  As stated, C3 says that an attempt that does not succeed fails with
  UnexpectedVersion, UnexpectedCmdType or AuthenticationFailed. When no control stream
  arrives before the timeout, handleAuth returns the error of \<^verbatim>\<open>AcceptUniStream\<close>
  (line 240), and when the authenticate body cannot be read it returns that error
  wrapped (line 257); neither is one of the three.
\<close>

theorem C3_counterexample:
  "fst (handleAuth lib0 srv0 env_no_stream) = Inl DeadlineExceeded
   \<and> \<not> errors_Is DeadlineExceeded ErrUnexpectedVersion
   \<and> \<not> errors_Is DeadlineExceeded ErrUnexpectedCmdType
   \<and> \<not> errors_Is DeadlineExceeded ErrAuthenticationFailed
   \<and> fst (handleAuth lib0 srv0 env_truncated) = Inl (Wrapf ''ReadAuthenticateWithHead: '' EOF [])
   \<and> \<not> errors_Is (Wrapf ''ReadAuthenticateWithHead: '' EOF []) ErrUnexpectedVersion
   \<and> \<not> errors_Is (Wrapf ''ReadAuthenticateWithHead: '' EOF []) ErrUnexpectedCmdType
   \<and> \<not> errors_Is (Wrapf ''ReadAuthenticateWithHead: '' EOF []) ErrAuthenticationFailed"
  by (simp add: handleAuth_def env_no_stream_def env_truncated_def env_good_def lib0_def)

text \<open>
  C3 (amended). handleAuth returns success with identity \<open>u\<close> if and only if a control
  stream is accepted, its first byte is read and is the recognized version, the command
  head is read and its type is "authenticate", the authenticate body is read and
  carries the identifier \<open>u\<close>, \<open>u\<close> is in the credential store, and the token derived
  from the connection's TLS state, \<open>u\<close> and the stored secret is exactly the presented
  token. Every other attempt fails, with one of: the error of accepting the control
  stream (the timeout among them); the error of reading the first byte; the error of
  reading the command head, of reading the authenticate body or of deriving the token,
  wrapped; UnexpectedVersion when the first byte is not the version; UnexpectedCmdType
  when the command type is not "authenticate"; AuthenticationFailed when the identifier
  is absent or the token differs.
\<close>

theorem C3_handleAuth_outcomes:
  "(fst (handleAuth l s env) = Inr u \<longleftrightarrow>
      AcceptUniStream env = None \<and> Peek env = Inr (Version0 l) \<and>
      (\<exists>h. ReadCommandHead env = Inr h \<and> TYPE' h = AuthenticateType l) \<and>
      (\<exists>a pw. ReadAuthenticateWithHead env = Inr a \<and> UUID a = u \<and> users s u = Some pw \<and>
         GenToken l (ConnectionState env) u pw = Inr (TOKEN a)))
   \<and> (\<forall>err. fst (handleAuth l s env) = Inl err \<longrightarrow>
         AcceptUniStream env = Some err
       \<or> Peek env = Inl err
       \<or> (\<exists>e. ReadCommandHead env = Inl e \<and> err = Wrapf ''ReadCommandHead: '' e [])
       \<or> (\<exists>e. ReadAuthenticateWithHead env = Inl e \<and> err = Wrapf ''ReadAuthenticateWithHead: '' e [])
       \<or> (\<exists>e a pw. ReadAuthenticateWithHead env = Inr a \<and> users s (UUID a) = Some pw \<and>
             GenToken l (ConnectionState env) (UUID a) pw = Inl e \<and> err = Wrapf ''GenToken: '' e [])
       \<or> (errors_Is err ErrUnexpectedVersion \<and> (\<exists>v. Peek env = Inr v \<and> v \<noteq> Version0 l))
       \<or> (errors_Is err ErrUnexpectedCmdType \<and>
             (\<exists>h. ReadCommandHead env = Inr h \<and> TYPE' h \<noteq> AuthenticateType l))
       \<or> (errors_Is err ErrAuthenticationFailed \<and>
             (\<exists>a. ReadAuthenticateWithHead env = Inr a \<and>
                (users s (UUID a) = None \<or>
                 (\<exists>pw tok. users s (UUID a) = Some pw \<and>
                    GenToken l (ConnectionState env) (UUID a) pw = Inr tok \<and> tok \<noteq> TOKEN a)))))"
proof (intro conjI allI impI)
  show "fst (handleAuth l s env) = Inr u \<longleftrightarrow>
      AcceptUniStream env = None \<and> Peek env = Inr (Version0 l) \<and>
      (\<exists>h. ReadCommandHead env = Inr h \<and> TYPE' h = AuthenticateType l) \<and>
      (\<exists>a pw. ReadAuthenticateWithHead env = Inr a \<and> UUID a = u \<and> users s u = Some pw \<and>
         GenToken l (ConnectionState env) u pw = Inr (TOKEN a))"
    by (auto simp: handleAuth_def split: option.splits sum.splits if_splits)
next
  fix err
  assume "fst (handleAuth l s env) = Inl err"
  then show "AcceptUniStream env = Some err
       \<or> Peek env = Inl err
       \<or> (\<exists>e. ReadCommandHead env = Inl e \<and> err = Wrapf ''ReadCommandHead: '' e [])
       \<or> (\<exists>e. ReadAuthenticateWithHead env = Inl e \<and> err = Wrapf ''ReadAuthenticateWithHead: '' e [])
       \<or> (\<exists>e a pw. ReadAuthenticateWithHead env = Inr a \<and> users s (UUID a) = Some pw \<and>
             GenToken l (ConnectionState env) (UUID a) pw = Inl e \<and> err = Wrapf ''GenToken: '' e [])
       \<or> (errors_Is err ErrUnexpectedVersion \<and> (\<exists>v. Peek env = Inr v \<and> v \<noteq> Version0 l))
       \<or> (errors_Is err ErrUnexpectedCmdType \<and>
             (\<exists>h. ReadCommandHead env = Inr h \<and> TYPE' h \<noteq> AuthenticateType l))
       \<or> (errors_Is err ErrAuthenticationFailed \<and>
             (\<exists>a. ReadAuthenticateWithHead env = Inr a \<and>
                (users s (UUID a) = None \<or>
                 (\<exists>pw tok. users s (UUID a) = Some pw \<and>
                    GenToken l (ConnectionState env) (UUID a) pw = Inr tok \<and> tok \<noteq> TOKEN a))))"
    by (auto simp: handleAuth_def split: option.splits sum.splits if_splits)
qed

theorem C3_handleAuth_outcomes_witness:
  "fst (handleAuth lib0 srv0 env_good) = Inr 1
   \<and> fst (handleAuth lib0 srv0 env_bad_token)
       = Inl (Wrapf [] ErrAuthenticationFailed '': 00000000-0000-0000-0000-000000000001'')
   \<and> errors_Is (Wrapf [] ErrAuthenticationFailed '': 00000000-0000-0000-0000-000000000001'')
        ErrAuthenticationFailed
   \<and> fst (handleAuth lib0 srv0 env_bad_version) = Inl (Wrapf [] ErrUnexpectedVersion '': [5]'')
   \<and> fst (handleAuth lib0 srv0 env_bad_cmd) = Inl (Wrapf [] ErrUnexpectedCmdType '': 1'')"
  using C3_handleAuth_outcomes [of lib0 srv0 env_good 1]
    C3_handleAuth_outcomes [of lib0 srv0 env_bad_token 1]
    C3_handleAuth_outcomes [of lib0 srv0 env_bad_version 1]
    C3_handleAuth_outcomes [of lib0 srv0 env_bad_cmd 1]
  by (simp add: handleAuth_def env_good_def env_bad_token_def env_bad_version_def env_bad_cmd_def
      lib0_def srv0_def make_server_def Itoa_def digit_char_def)

subsection \<open>C4: what the close tells the client\<close>

text \<open>
  C4 says that the close a client observes (code and reason) is the same whether the
  identifier it presented is absent from the credential store or is configured and
  presented with a wrong token. On the sample server, which knows identifier 1 only,
  the authentication task is run to its end for identifier 2 and for identifier 1 with
  a wrong token. Both closes carry the authentication-failure code. For the absent
  identifier the only \<^verbatim>\<open>CloseWithError\<close> is the one of line 150, with an empty reason.
  For the wrong token handleAuth has closed the connection before (line 268) with the
  reason \<^verbatim>\<open>authentication failed\<close>, and that first close is the one the client sees.
\<close>

theorem C4_close_reason_differs:
  "observed_close (run lib0 srv0 [AuthStep env_unknown_id, AuthStep env_unknown_id, AuthStep env_unknown_id] init_conn)
     = Some (AuthenticationFailed lib0, [])
   \<and> observed_close (run lib0 srv0 [AuthStep env_bad_token, AuthStep env_bad_token, AuthStep env_bad_token] init_conn)
     = Some (AuthenticationFailed lib0, ''authentication failed'')
   \<and> close_calls (run lib0 srv0 [AuthStep env_bad_token, AuthStep env_bad_token, AuthStep env_bad_token] init_conn)
     = [(AuthenticationFailed lib0, ''authentication failed''), (AuthenticationFailed lib0, [])]
   \<and> auth_task (run lib0 srv0 [AuthStep env_unknown_id, AuthStep env_unknown_id, AuthStep env_unknown_id] init_conn)
     = A151
   \<and> auth_task (run lib0 srv0 [AuthStep env_bad_token, AuthStep env_bad_token, AuthStep env_bad_token] init_conn)
     = A151"
  by (simp add: run_def authTask_step_def handleAuth_def init_conn_def observed_close_def
      env_unknown_id_def env_bad_token_def env_good_def lib0_def srv0_def make_server_def)

subsection \<open>C5: what Serve logs for a connection\<close>

lemma Serve_loop_connections:
  "Serve_loop (map Inr rs) = (None, length rs, concat (map Serve_task rs))"
  by (induction rs) simp_all

lemma Serve_loop_listener_error:
  "Serve_loop (map Inr rs @ Inl e # rest) = (Some e, length rs, concat (map Serve_task rs))"
  by (induction rs) simp_all

text \<open>
  As stated, C5 says that nothing is logged when the accept loop fails because the root
  scope was cancelled. On the sample server a client presents an unknown identifier:
  handleAuth fails, the task cancels the root scope (line 149), \<^verbatim>\<open>AcceptStream(ctx)\<close>
  returns \<^verbatim>\<open>ctx.Err()\<close>, handleConn returns it after its deferred calls, and the task
  of Serve logs it as a warning: context.Canceled is not a timeout.
\<close>

theorem C5_counterexample:
  "accept_loop (run lib0 srv0
      [AuthStep env_unknown_id, AuthStep env_unknown_id,
       ConnStep AcceptCtxDone, ConnStep AcceptCtxDone, ConnStep AcceptCtxDone] init_conn)
     = CReturned Canceled
   \<and> Serve_task (Some Canceled) = [(Canceled, [])]"
  by (simp add: run_def authTask_step_def handleConn_step_def handleAuth_def init_conn_def
      Serve_task_def is_timeout_def
      env_unknown_id_def env_good_def lib0_def srv0_def make_server_def)

text \<open>
  C5 (amended). handleConn returns the error its \<^verbatim>\<open>AcceptStream\<close> failed with. When
  the connection-handling task of Serve finishes with an error, no warning is logged
  exactly if the error is (or wraps) a \<^verbatim>\<open>net.Error\<close> whose \<^verbatim>\<open>Timeout()\<close> is true;
  every other error is logged as one warning, and the error of a cancelled root scope
  (context.Canceled) is among those logged. No connection's result ends the listener:
  Serve returns only the error of \<^verbatim>\<open>listener.Accept\<close>, and until then it starts a task
  for every connection, whatever the earlier connections returned.
\<close>

theorem C5_Serve_logging:
  "accept_loop (handleConn_step a3 (handleConn_step a2
      (handleConn_step (AcceptError err) (c\<lparr>accept_loop := C156\<rparr>)))) = CReturned err
   \<and> (Serve_task (Some err) = [] \<longleftrightarrow> is_timeout err)
   \<and> (\<not> is_timeout err \<longrightarrow> Serve_task (Some err) = [(err, [])])
   \<and> Serve_task (Some Canceled) = [(Canceled, [])]
   \<and> Serve_loop (map Inr rs) = (None, length rs, concat (map Serve_task rs))
   \<and> Serve_loop (map Inr rs @ Inl e # rest) = (Some e, length rs, concat (map Serve_task rs))"
  by (simp add: Serve_loop_connections Serve_loop_listener_error Serve_task_def is_timeout_def
      handleConn_step_def)

theorem C5_Serve_logging_witness:
  "\<not> is_timeout (LibError ''Application error 0x0 (remote)'')
   \<and> Serve_task (Some (LibError ''Application error 0x0 (remote)''))
       = [(LibError ''Application error 0x0 (remote)'', [])]
   \<and> Serve_task (Some (NetError True ''timeout: no recent network activity'')) = []
   \<and> Serve_loop [Inr (Some Canceled), Inr (Some (NetError True ''timeout: no recent network activity'')),
         Inr (Some (LibError ''Application error 0x0 (remote)''))]
       = (None, 3, [(Canceled, []), (LibError ''Application error 0x0 (remote)'', [])])"
  using C5_Serve_logging [of AcceptCtxDone AcceptCtxDone "LibError ''Application error 0x0 (remote)''" init_conn
      "[Some Canceled, Some (NetError True ''timeout: no recent network activity''),
        Some (LibError ''Application error 0x0 (remote)'')]"]
    C5_Serve_logging [of AcceptCtxDone AcceptCtxDone "NetError True ''timeout: no recent network activity''" init_conn "[]"]
  by (simp add: is_timeout_def Serve_task_def)

subsection \<open>C6: dial and relay errors\<close>

text \<open>
  As stated, C6 says that a relay error that is not benign is returned wrapped as
  \<^verbatim>\<open>tcp relay error\<close>. Line 214 wraps it with the text \<^verbatim>\<open>relay tcp error: \<close>: for
  the relay error "boom" the message is \<^verbatim>\<open>relay tcp error: boom\<close>, which does not
  start with \<^verbatim>\<open>tcp relay error\<close>.
\<close>

theorem C6_counterexample:
  "fst (dispatch srv0 ((out_ok md_tcp)\<lparr>relayTCP_result := Some (LibError ''boom'')\<rparr>) md_tcp)
     = Some (Wrapf ''relay tcp error: '' (LibError ''boom'') [])
   \<and> Error (Wrapf ''relay tcp error: '' (LibError ''boom'') []) = ''relay tcp error: boom''
   \<and> take (length ''tcp relay error'') ''relay tcp error: boom'' \<noteq> ''tcp relay error''"
  by (simp add: dispatch_def out_ok_def md_tcp_def benign_def is_timeout_def HasSuffix_def)

text \<open>
  C6 (amended). In the switch of handleStream, for a "tcp" request: when the dial fails,
  a timeout gives a nil result and any other error is returned unchanged, and in both
  cases the Dialer call is the only call made (no relay); when the dial succeeds and
  RelayTCP fails, the result is nil if the error is EOF, a network timeout, or has a
  message ending in \<^verbatim>\<open>with error code 0\<close>, and otherwise the error wrapped with the
  text \<^verbatim>\<open>relay tcp error: \<close>. For a "udp" request a failure of RelayUoT is classified
  the same way and wrapped with the text \<^verbatim>\<open>relay udp error: \<close>.
\<close>

theorem C6_dial_and_relay_errors:
  "(Network mdata = ''tcp'' \<and>
      dial_result out ''tcp'' (JoinHostPort (Hostname mdata) (Itoa (uint (Port mdata)))) = Some err
    \<longrightarrow> dispatch s out mdata =
          (if is_timeout err then None else Some err,
           [Dial (dialer s) ''tcp'' (word_of_int (fwmark s))
              (JoinHostPort (Hostname mdata) (Itoa (uint (Port mdata))))]))
   \<and> (Network mdata = ''tcp'' \<and>
      dial_result out ''tcp'' (JoinHostPort (Hostname mdata) (Itoa (uint (Port mdata)))) = None \<and>
      relayTCP_result out = Some err
    \<longrightarrow> fst (dispatch s out mdata) =
          (if errors_Is err EOF \<or> is_timeout err \<or> HasSuffix (Error err) ''with error code 0''
           then None else Some (Wrapf ''relay tcp error: '' err [])))
   \<and> (Network mdata = ''udp'' \<and> relayUoT_result out = Some err
    \<longrightarrow> fst (dispatch s out mdata) =
          (if errors_Is err EOF \<or> is_timeout err \<or> HasSuffix (Error err) ''with error code 0''
           then None else Some (Wrapf ''relay udp error: '' err [])))"
  by (simp add: dispatch_def benign_def)

theorem C6_dial_and_relay_errors_witness:
  "dispatch srv0 ((out_ok md_tcp)\<lparr>dial_result := (\<lambda>n t. Some (NetError True ''i/o timeout''))\<rparr>) md_tcp
     = (None, [Dial FullconeDirect ''tcp'' 0 ''example.com:80''])
   \<and> dispatch srv0 ((out_ok md_tcp)\<lparr>dial_result := (\<lambda>n t. Some (LibError ''connection refused''))\<rparr>) md_tcp
     = (Some (LibError ''connection refused''), [Dial FullconeDirect ''tcp'' 0 ''example.com:80''])
   \<and> fst (dispatch srv0 ((out_ok md_tcp)\<lparr>relayTCP_result := Some (Wrapf ''read: '' EOF [])\<rparr>) md_tcp) = None
   \<and> fst (dispatch srv0
        ((out_ok md_tcp)\<lparr>relayTCP_result := Some (LibError ''stream 4 canceled with error code 0'')\<rparr>) md_tcp)
       = None
   \<and> fst (dispatch srv0 ((out_ok md_udp)\<lparr>relayUoT_result := Some (LibError ''boom'')\<rparr>) md_udp)
       = Some (Wrapf ''relay udp error: '' (LibError ''boom'') [])"
  using
    C6_dial_and_relay_errors [of md_tcp
      "(out_ok md_tcp)\<lparr>dial_result := (\<lambda>n t. Some (NetError True ''i/o timeout''))\<rparr>"
      "NetError True ''i/o timeout''" srv0]
    C6_dial_and_relay_errors [of md_tcp
      "(out_ok md_tcp)\<lparr>dial_result := (\<lambda>n t. Some (LibError ''connection refused''))\<rparr>"
      "LibError ''connection refused''" srv0]
    C6_dial_and_relay_errors [of md_tcp
      "(out_ok md_tcp)\<lparr>relayTCP_result := Some (Wrapf ''read: '' EOF [])\<rparr>"
      "Wrapf ''read: '' EOF []" srv0]
    C6_dial_and_relay_errors [of md_tcp
      "(out_ok md_tcp)\<lparr>relayTCP_result := Some (LibError ''stream 4 canceled with error code 0'')\<rparr>"
      "LibError ''stream 4 canceled with error code 0''" srv0]
    C6_dial_and_relay_errors [of md_udp
      "(out_ok md_udp)\<lparr>relayUoT_result := Some (LibError ''boom'')\<rparr>"
      "LibError ''boom''" srv0]
  by (simp add: out_ok_def md_tcp_def md_udp_def srv0_def opts0_def make_server_def is_timeout_def
      HasSuffix_def JoinHostPort_def Itoa_def digit_char_def)

subsection \<open>C7: the advertised stream limits\<close>

lemma round_half_even_bounds: "\<lfloor>r\<rfloor> \<le> round_half_even r" "round_half_even r \<le> \<lceil>r\<rceil>"
proof -
  show "\<lfloor>r\<rfloor> \<le> round_half_even r"
    by (simp add: round_half_even_def Let_def)
  have "\<lceil>r\<rceil> = \<lfloor>r\<rfloor> + 1" if "r - of_int \<lfloor>r\<rfloor> \<ge> 1 / 2"
  proof -
    have "of_int \<lfloor>r\<rfloor> < r" using that by linarith
    then show ?thesis by (simp add: ceiling_altdef)
  qed
  moreover have "\<lfloor>r\<rfloor> \<le> \<lceil>r\<rceil>" by linarith
  ultimately show "round_half_even r \<le> \<lceil>r\<rceil>"
    by (auto simp: round_half_even_def Let_def not_less)
qed

lemma round_half_even_of_int: "round_half_even (of_int n) = n"
  by (simp add: round_half_even_def)

lemma float64_exponent_le:
  assumes "q \<noteq> 0" and "\<bar>q\<bar> < 2 ^ m"
  shows "float64_exponent q \<le> int m - 53"
proof -
  obtain a b where ab: "quotient_of \<bar>q\<bar> = (a, b)" by (cases "quotient_of \<bar>q\<bar>")
  have b: "0 < b" using ab by (rule quotient_of_denom_pos)
  have q: "\<bar>q\<bar> = of_int a / of_int b" using ab by (rule quotient_of_div)
  have "0 < \<bar>q\<bar>" using assms(1) by simp
  then have a: "0 < a" using q b by (simp add: zero_less_divide_iff)
  define k where "k = bitlen a - bitlen b"
  have ba: "(2::int) ^ nat (bitlen a - 1) \<le> a" using bitlen_bounds [OF a] by simp
  have bb: "b < 2 ^ nat (bitlen b)" using bitlen_bounds [OF b] by simp
  have la: "1 \<le> bitlen a" using a by (simp add: bitlen_alt_def)
  have lb: "0 \<le> bitlen b" by (rule bitlen_nonneg)
  have low: "(2::rat) powi (k - 1) < \<bar>q\<bar>"
  proof -
    have "(2::rat) powi (k - 1) = 2 powi (bitlen a - 1) / 2 powi (bitlen b)"
      by (simp add: k_def power_int_diff)
    also have "\<dots> = 2 ^ nat (bitlen a - 1) / 2 ^ nat (bitlen b)"
      using la lb by (simp add: power_int_nonneg_exp)
    also have "\<dots> \<le> of_int a / 2 ^ nat (bitlen b)"
    proof -
      have "(2::rat) ^ nat (bitlen a - 1) \<le> of_int a"
        using ba by (metis of_int_le_iff of_int_numeral of_int_power)
      then show ?thesis by (simp add: divide_right_mono)
    qed
    also have "\<dots> < of_int a / of_int b"
    proof -
      have "(of_int b :: rat) < 2 ^ nat (bitlen b)"
        using bb by (metis of_int_less_iff of_int_numeral of_int_power)
      then show ?thesis using a b by (simp add: divide_strict_left_mono)
    qed
    finally show ?thesis using q by simp
  qed
  have kk: "(if 2 powi k \<le> \<bar>q\<bar> then k else k - 1) \<le> int m - 1"
  proof (cases "2 powi k \<le> \<bar>q\<bar>")
    case True
    then have "(2::rat) powi k < 2 powi (int m)" using assms(2) by simp
    then have "k < int m" by (rule power_int_le_imp_less_exp [rotated]) simp_all
    then show ?thesis using True by simp
  next
    case False
    have "(2::rat) powi (k - 1) < 2 powi (int m)" using low assms(2) by simp
    then have "k - 1 < int m" by (rule power_int_le_imp_less_exp [rotated]) simp_all
    then show ?thesis using False by simp
  qed
  have "float64_exponent q = (if 2 powi k \<le> \<bar>q\<bar> then k else k - 1) - 52"
    by (simp add: float64_exponent_def ab k_def Let_def)
  then show ?thesis using kk by linarith
qed

lemma float64_scaled:
  assumes "q \<noteq> 0" and "\<bar>q\<bar> < 2 ^ m" and "m \<le> 53"
  shows "\<exists>n. int n \<ge> 53 - int m \<and>
           float64 q = sgn q * of_int (round_half_even (\<bar>q\<bar> * 2 ^ n)) / 2 ^ n"
proof -
  define e where "e = float64_exponent q"
  have e: "e \<le> int m - 53" unfolding e_def using assms(1,2) by (rule float64_exponent_le)
  define n where "n = nat (- e)"
  have n: "e = - int n" using e assms(3) by (simp add: n_def)
  have p: "(2::rat) powi e = 1 / 2 ^ n" by (simp add: n power_int_minus_divide)
  have "float64 q = sgn q * of_int (round_half_even (\<bar>q\<bar> / 2 powi e)) * 2 powi e"
    using assms(1) by (simp add: float64_def e_def Let_def)
  then have "float64 q = sgn q * of_int (round_half_even (\<bar>q\<bar> * 2 ^ n)) / 2 ^ n"
    by (simp add: p)
  moreover have "int n \<ge> 53 - int m" using e n by linarith
  ultimately show ?thesis by blast
qed

lemma float64_of_int:
  assumes "\<bar>x\<bar> < 2 ^ 53"
  shows "float64 (of_int x) = of_int x"
proof (cases "x = 0")
  case True
  then show ?thesis by (simp add: float64_def)
next
  case False
  have "\<bar>of_int x :: rat\<bar> < 2 ^ 53"
    using assms by (metis of_int_abs of_int_less_iff of_int_numeral of_int_power)
  then obtain n where
    f: "float64 (of_int x) = sgn (of_int x) * of_int (round_half_even (\<bar>of_int x\<bar> * 2 ^ n)) / 2 ^ n"
    using float64_scaled [of "of_int x" 53] False by auto
  have "\<bar>of_int x :: rat\<bar> * 2 ^ n = of_int (\<bar>x\<bar> * 2 ^ n)" by simp
  then have "round_half_even (\<bar>of_int x\<bar> * 2 ^ n) = \<bar>x\<bar> * 2 ^ n"
    using round_half_even_of_int by metis
  then have "float64 (of_int x) = sgn (of_int x) * of_int \<bar>x\<bar>"
    using f by simp
  also have "\<dots> = of_int x"
    by (simp add: sgn_mult_abs)
  finally show ?thesis .
qed

lemma ceiling_float64_tenth:
  assumes "0 < x" and "x \<le> 2 ^ 52"
  shows "\<lceil>float64 (of_int x / 10)\<rceil> = \<lceil>(of_int x :: rat) / 10\<rceil>"
proof -
  define q :: rat where "q = of_int x / 10"
  have q0: "0 < q" using assms(1) by (simp add: q_def)
  have "(of_int x :: rat) \<le> 2 ^ 52"
    using assms(2) by (metis of_int_le_iff of_int_numeral of_int_power)
  then have qm: "\<bar>q\<bar> < 2 ^ 49" using q0 by (simp add: q_def)
  obtain n where n: "int n \<ge> 4"
    and f: "float64 q = sgn q * of_int (round_half_even (\<bar>q\<bar> * 2 ^ n)) / 2 ^ n"
    using float64_scaled [of q 49] q0 qm by auto
  define s :: int where "s = 2 ^ n"
  have s16: "16 \<le> s"
  proof -
    have "(2::int) ^ 4 \<le> 2 ^ n" using n by (intro power_increasing) simp_all
    then show ?thesis by (simp add: s_def)
  qed
  define r where "r = round_half_even (q * of_int s)"
  have fq: "float64 q = of_int r / of_int s"
    using f q0 by (simp add: r_def s_def)
  define k where "k = \<lceil>q\<rceil> - 1"
  have kq: "of_int k < q" "q \<le> of_int k + 1" unfolding k_def by linarith+
  have "of_int (10 * k) < (of_int x :: rat)" using kq(1) by (simp add: q_def)
  then have "10 * k < x" by (simp only: of_int_less_iff)
  then have "10 * k + 1 \<le> x" by simp
  then have "(of_int (10 * k + 1) :: rat) \<le> of_int x" by (simp only: of_int_le_iff)
  then have q10: "of_int k + 1 / 10 \<le> q" by (simp add: q_def)
  have lo: "k * s + 1 \<le> r"
  proof -
    have "(of_int (k * s + 1) :: rat) \<le> (of_int k + 1 / 10) * of_int s"
    proof -
      have "(10::rat) \<le> of_int s" using s16 by linarith
      then show ?thesis by (simp add: algebra_simps)
    qed
    also have "\<dots> \<le> q * of_int s"
      using q10 s16 by (intro mult_right_mono) simp_all
    finally have "k * s + 1 \<le> \<lfloor>q * of_int s\<rfloor>" by (simp add: le_floor_iff)
    then show ?thesis using round_half_even_bounds(1) [of "q * of_int s"] by (simp add: r_def)
  qed
  have hi: "r \<le> (k + 1) * s"
  proof -
    have "q * of_int s \<le> of_int ((k + 1) * s)"
      using kq(2) s16 by (simp add: mult_right_mono)
    then have "\<lceil>q * of_int s\<rceil> \<le> (k + 1) * s" by (simp add: ceiling_le_iff)
    then show ?thesis using round_half_even_bounds(2) [of "q * of_int s"] by (simp add: r_def)
  qed
  have sp: "(0::rat) < of_int s" using s16 by simp
  have "of_int k < (of_int r :: rat) / of_int s"
  proof -
    have "k * s < r" using lo by simp
    then have "(of_int (k * s) :: rat) < of_int r" by (simp only: of_int_less_iff)
    then show ?thesis using sp by (simp add: pos_less_divide_eq)
  qed
  moreover have "(of_int r :: rat) / of_int s \<le> of_int k + 1"
  proof -
    have "(of_int r :: rat) \<le> of_int ((k + 1) * s)" using hi by (simp only: of_int_le_iff)
    then show ?thesis using sp by (simp add: pos_divide_le_eq)
  qed
  ultimately have "\<lceil>(of_int r :: rat) / of_int s\<rceil> = k + 1"
    by (intro ceiling_unique) simp_all
  then show ?thesis using fq by (simp add: q_def k_def)
qed

lemma int64_in_range: "- (2 ^ 63) \<le> i \<Longrightarrow> i < 2 ^ 63 \<Longrightarrow> int64 i = i"
  by (simp add: int64_def signed_take_bit_int_eq_self)

lemma ceiling_tenth_le:
  assumes "0 \<le> x" and "x \<le> 2 ^ 52"
  shows "0 \<le> \<lceil>(of_int x :: rat) / 10\<rceil>" "\<lceil>(of_int x :: rat) / 10\<rceil> \<le> 2 ^ 52"
proof -
  show "0 \<le> \<lceil>(of_int x :: rat) / 10\<rceil>" using assms(1) by (simp add: le_ceiling_iff)
  have "(of_int x :: rat) / 10 \<le> of_int x" using assms(1) by simp
  also have "\<dots> \<le> of_int ((2::int) ^ 52)" using assms(2) by (simp only: of_int_le_iff)
  finally show "\<lceil>(of_int x :: rat) / 10\<rceil> \<le> 2 ^ 52" by (simp add: ceiling_le_iff)
qed

lemma quicMaxOpenIncomingStreams_exact:
  assumes "0 \<le> x" and "x \<le> 2 ^ 52"
  shows "int64 (int64 x + int64 \<lceil>float64 (float64 (of_int (int64 x)) / 10)\<rceil>)
           = x + \<lceil>(of_int x :: rat) / 10\<rceil>"
proof -
  define t where "t = \<lceil>(of_int x :: rat) / 10\<rceil>"
  have x: "int64 x = x" using assms by (intro int64_in_range) simp_all
  have f: "float64 (of_int x) = of_int x" using assms by (intro float64_of_int) simp
  have c: "\<lceil>float64 (of_int x / 10)\<rceil> = t"
  proof (cases "x = 0")
    case True
    then show ?thesis by (simp add: float64_def t_def)
  next
    case False
    then show ?thesis unfolding t_def using assms by (intro ceiling_float64_tenth) simp_all
  qed
  have b: "0 \<le> t" "t \<le> 2 ^ 52"
    unfolding t_def by (rule ceiling_tenth_le [OF assms])+
  have i: "int64 t = t" using b by (intro int64_in_range) simp_all
  have "int64 (x + t) = x + t" using assms b by (intro int64_in_range) simp_all
  then show ?thesis by (simp add: x f c i flip: t_def)
qed

lemma New_limit: "New l opts = Inr s \<Longrightarrow> maxOpenIncomingStreams s = 100"
  by (auto simp: New_def make_server_def split: sum.splits if_splits)

text \<open>
  C7. The two limits Serve advertises are the same number. For a limit between 0 and
  \<open>2 ^ 52\<close> the float64 computation of line 102 is exact, and the number is the
  limit plus the limit divided by 10 and rounded up. For every server \<^verbatim>\<open>New\<close>
  returns, whose limit is 100, both advertised limits are 110.
\<close>

theorem C7_advertised_streams:
  "MaxIncomingUniStreams (Serve_quic_config s) = MaxIncomingStreams (Serve_quic_config s)
   \<and> (0 \<le> maxOpenIncomingStreams s \<and> maxOpenIncomingStreams s \<le> 2 ^ 52 \<longrightarrow>
        MaxIncomingStreams (Serve_quic_config s)
          = maxOpenIncomingStreams s + \<lceil>(of_int (maxOpenIncomingStreams s) :: rat) / 10\<rceil>)
   \<and> (New l opts = Inr s \<longrightarrow>
        MaxIncomingStreams (Serve_quic_config s) = 110 \<and> MaxIncomingUniStreams (Serve_quic_config s) = 110)"
proof (intro conjI impI)
  show u: "MaxIncomingUniStreams (Serve_quic_config s) = MaxIncomingStreams (Serve_quic_config s)"
    by (simp add: Serve_quic_config_def Let_def)
  show g: "MaxIncomingStreams (Serve_quic_config s)
          = maxOpenIncomingStreams s + \<lceil>(of_int (maxOpenIncomingStreams s) :: rat) / 10\<rceil>"
    if "0 \<le> maxOpenIncomingStreams s \<and> maxOpenIncomingStreams s \<le> 2 ^ 52"
    using that quicMaxOpenIncomingStreams_exact [of "maxOpenIncomingStreams s"]
    by (simp add: Serve_quic_config_def Let_def)
  assume n: "New l opts = Inr s"
  have m: "maxOpenIncomingStreams s = 100" using n by (rule New_limit)
  have "MaxIncomingStreams (Serve_quic_config s) = 100 + \<lceil>(of_int 100 :: rat) / 10\<rceil>"
    using quicMaxOpenIncomingStreams_exact [of 100] m
    by (simp add: Serve_quic_config_def Let_def)
  then show "MaxIncomingStreams (Serve_quic_config s) = 110" by simp
  then show "MaxIncomingUniStreams (Serve_quic_config s) = 110" using u by simp
qed

theorem C7_advertised_streams_witness:
  "New lib0 opts0 = Inr srv0
   \<and> maxOpenIncomingStreams srv0 = 100
   \<and> MaxIncomingStreams (Serve_quic_config srv0) = 110
   \<and> MaxIncomingUniStreams (Serve_quic_config srv0) = 110"
proof -
  have n: "New lib0 opts0 = Inr srv0"
    by (simp add: New_def lib0_def opts0_def srv0_def make_server_def)
  have m: "maxOpenIncomingStreams srv0 = 100"
    by (simp add: srv0_def make_server_def)
  from C7_advertised_streams [of srv0 lib0 opts0] n m show ?thesis by simp
qed

subsection \<open>C8: New\<close>

lemma parse_users_fails_iff:
  "(\<exists>err. parse_users l us m = Inl err) \<longleftrightarrow> (\<exists>(u, p) \<in> set us. \<exists>e. uuid_Parse l u = Inl e)"
proof (induction us arbitrary: m)
  case Nil
  then show ?case by simp
next
  case (Cons x xs)
  obtain u p where x: "x = (u, p)" by (cases x)
  show ?case
  proof (cases "uuid_Parse l u")
    case (Inl e)
    then show ?thesis using x by auto
  next
    case (Inr i)
    have a: "parse_users l (x # xs) m = parse_users l xs (m(i \<mapsto> p))"
      using x Inr by simp
    have b: "(\<exists>(u, p) \<in> set (x # xs). \<exists>e. uuid_Parse l u = Inl e)
        \<longleftrightarrow> (\<exists>(u, p) \<in> set xs. \<exists>e. uuid_Parse l u = Inl e)"
      using x Inr by simp
    show ?thesis unfolding a b by (rule Cons.IH)
  qed
qed

text \<open>
  C8. \<^verbatim>\<open>New\<close> returns an error if and only if some configured identifier does not
  parse as a UUID, or the certificate and key cannot be loaded, or \<^verbatim>\<open>SendThrough\<close> is
  not empty and does not parse as an address. When it returns a server, the dialer is
  the direct dialer bound to the parsed \<^verbatim>\<open>SendThrough\<close> address if \<^verbatim>\<open>SendThrough\<close> is
  configured, and the full-cone direct dialer otherwise.
\<close>

theorem C8_New:
  "((\<exists>err. New l opts = Inl err) \<longleftrightarrow>
      (\<exists>(u, p) \<in> set (Users opts). \<exists>e. uuid_Parse l u = Inl e)
      \<or> (\<exists>e. LoadX509KeyPair l (Certificate opts) (PrivateKey opts) = Inl e)
      \<or> (SendThrough opts \<noteq> [] \<and> (\<exists>e. ParseAddr l (SendThrough opts) = Inl e)))
   \<and> (\<forall>s. New l opts = Inr s \<longrightarrow>
         (SendThrough opts = [] \<and> dialer s = FullconeDirect)
         \<or> (SendThrough opts \<noteq> [] \<and>
             (\<exists>a. ParseAddr l (SendThrough opts) = Inr a \<and> dialer s = DirectDialerLaddr True a)))"
proof (intro conjI allI impI)
  show "(\<exists>err. New l opts = Inl err) \<longleftrightarrow>
      (\<exists>(u, p) \<in> set (Users opts). \<exists>e. uuid_Parse l u = Inl e)
      \<or> (\<exists>e. LoadX509KeyPair l (Certificate opts) (PrivateKey opts) = Inl e)
      \<or> (SendThrough opts \<noteq> [] \<and> (\<exists>e. ParseAddr l (SendThrough opts) = Inl e))"
  proof (cases "parse_users l (Users opts) Map.empty")
    case (Inl e)
    then have "\<exists>(u, p) \<in> set (Users opts). \<exists>e. uuid_Parse l u = Inl e"
      using parse_users_fails_iff [of l "Users opts" Map.empty] by blast
    then show ?thesis using Inl by (simp add: New_def)
  next
    case (Inr us)
    then have "\<not> (\<exists>(u, p) \<in> set (Users opts). \<exists>e. uuid_Parse l u = Inl e)"
      using parse_users_fails_iff [of l "Users opts" Map.empty] by auto
    then show ?thesis using Inr
      by (cases "LoadX509KeyPair l (Certificate opts) (PrivateKey opts)";
          cases "ParseAddr l (SendThrough opts)") (auto simp: New_def)
  qed
next
  fix s
  assume "New l opts = Inr s"
  then show "(SendThrough opts = [] \<and> dialer s = FullconeDirect)
         \<or> (SendThrough opts \<noteq> [] \<and>
             (\<exists>a. ParseAddr l (SendThrough opts) = Inr a \<and> dialer s = DirectDialerLaddr True a))"
    by (auto simp: New_def make_server_def split: sum.splits if_splits)
qed

theorem C8_New_witness:
  "New lib0 opts0 = Inr srv0
   \<and> dialer srv0 = FullconeDirect
   \<and> (\<exists>s. New lib0 (opts0\<lparr>SendThrough := ''192.0.2.1''\<rparr>) = Inr s
          \<and> dialer s = DirectDialerLaddr True ''192.0.2.1'')
   \<and> (\<exists>err. New lib0 (opts0\<lparr>Users := [(''not-a-uuid'', ''S1'')]\<rparr>) = Inl err)"
  using C8_New [of lib0 opts0] C8_New [of lib0 "opts0\<lparr>SendThrough := ''192.0.2.1''\<rparr>"]
    C8_New [of lib0 "opts0\<lparr>Users := [(''not-a-uuid'', ''S1'')]\<rparr>"]
  by (simp add: New_def lib0_def opts0_def srv0_def make_server_def)

subsection \<open>C9: an unsupported network kind\<close>

text \<open>
  As stated, C9 says that every stream whose parsed network kind is neither "tcp" nor
  "udp" fails with \<^verbatim>\<open>unexpected network\<close>. The gate of lines 178-183 comes before the
  switch: a stream with the kind "icmp" on a connection whose root scope is cancelled
  returns the root scope's error (context canceled) from line 181.
\<close>

theorem C9_counterexample:
  "Network md_icmp \<noteq> ''tcp'' \<and> Network md_icmp \<noteq> ''udp''
   \<and> pc (handleStream_step srv0 (out_ok md_icmp) RootCancelled (stream_at (S179 md_icmp)))
       = SReturned (Some Canceled)
   \<and> Some Canceled \<noteq> Some (Errorf (''unexpected network: '' @ Network md_icmp))"
  by (simp add: handleStream_step_def stream_at_def md_icmp_def)

text \<open>
  C9 (amended). A stream whose parsed network kind is neither "tcp" nor "udp" and that
  has passed the gate (it stands at the switch of line 184) returns the error
  \<^verbatim>\<open>unexpected network: <kind>\<close> with the stream closed; and whether or not it
  passes the gate, no step of such a stream (waiting at line 178, polling at line 179,
  or at the switch) calls the Dialer or a relay.
\<close>

theorem C9_unexpected_network:
  "Network mdata \<noteq> ''tcp'' \<Longrightarrow> Network mdata \<noteq> ''udp'' \<Longrightarrow>
     handleStream_step s out sc (st\<lparr>pc := S184 mdata\<rparr>) =
       st\<lparr>pc := SReturned (Some (Errorf (''unexpected network: '' @ Network mdata))),
          stream_closed := True\<rparr>
     \<and> (\<forall>p \<in> {S178 mdata, S179 mdata, S184 mdata}.
           calls (handleStream_step s out sc (st\<lparr>pc := p\<rparr>)) = calls st)"
  by (simp add: handleStream_step_def dispatch_def split: option.splits)

theorem C9_unexpected_network_witness:
  "Network md_icmp \<noteq> ''tcp'' \<and> Network md_icmp \<noteq> ''udp''
   \<and> handleStream_step srv0 (out_ok md_icmp) AuthResolved (stream_at (S184 md_icmp)) =
       \<lparr> pc = SReturned (Some (Errorf ''unexpected network: icmp'')), calls = [], stream_closed = True \<rparr>
   \<and> calls (handleStream_step srv0 (out_ok md_icmp) AuthResolved (stream_at (S179 md_icmp))) = []"
proof -
  have k: "Network md_icmp \<noteq> ''tcp''" "Network md_icmp \<noteq> ''udp''"
    by (simp_all add: md_icmp_def)
  from C9_unexpected_network [OF k, of srv0 "out_ok md_icmp" AuthResolved "stream_at (S184 md_icmp)"]
  show ?thesis
    using k by (simp add: stream_at_def md_icmp_def)
qed

subsection \<open>C10: a header that cannot be read\<close>

text \<open>
  C10. A stream task that is about to read the header (line 174) and whose read fails
  returns the read error in that step, with the stream closed and no call of the Dialer
  or a relay, whatever the state of the two scopes: also while both are live, that is,
  while authentication is pending. The task around it logs the error. A stream whose
  header is read goes on to wait at line 178, and there it stays as long as the auth
  scope is not done.
\<close>

theorem C10_header_read_failure:
  "(pc st = S174 \<and> header out = Inl err \<longrightarrow>
      handleStream_step s out sc st = st\<lparr>pc := SReturned (Some err), stream_closed := True\<rparr>)
   \<and> (i < length (streams c) \<and> pc (streams c ! i) = S174 \<and> header out = Inl err \<longrightarrow>
      streamTask_step s i out c =
        c\<lparr>streams := (streams c)[i := (streams c ! i)\<lparr>pc := SReturned (Some err), stream_closed := True\<rparr>],
          warns := warns c @ [(err, [])]\<rparr>)
   \<and> (pc st = S174 \<and> header out = Inr mdata \<longrightarrow>
      handleStream_step s out sc st = st\<lparr>pc := S178 mdata\<rparr>)
   \<and> (pc st = S178 mdata \<and> authCtx_err sc = None \<longrightarrow> handleStream_step s out sc st = st)"
  by (simp add: handleStream_step_def streamTask_step_def Let_def)

theorem C10_header_read_failure_witness:
  "scopes (run lib0 srv0 [ConnStep Accepted] init_conn) = Live
   \<and> auth_task (run lib0 srv0 [ConnStep Accepted] init_conn) = A145
   \<and> streams (run lib0 srv0 [ConnStep Accepted, StreamStep 0 ((out_ok md_tcp)\<lparr>header := Inl EOF\<rparr>)] init_conn)
       = [\<lparr> pc = SReturned (Some EOF), calls = [], stream_closed = True \<rparr>]
   \<and> warns (run lib0 srv0 [ConnStep Accepted, StreamStep 0 ((out_ok md_tcp)\<lparr>header := Inl EOF\<rparr>)] init_conn)
       = [(EOF, [])]
   \<and> streams (run lib0 srv0 [ConnStep Accepted, StreamStep 0 (out_ok md_tcp), StreamStep 0 (out_ok md_tcp)] init_conn)
       = [\<lparr> pc = S178 md_tcp, calls = [], stream_closed = False \<rparr>]"
  using
    C10_header_read_failure [of new_stream "(out_ok md_tcp)\<lparr>header := Inl EOF\<rparr>" EOF srv0 Live 0
      "run lib0 srv0 [ConnStep Accepted] init_conn" md_tcp]
    C10_header_read_failure [of new_stream "out_ok md_tcp" EOF srv0 Live 0
      "run lib0 srv0 [ConnStep Accepted] init_conn" md_tcp]
    C10_header_read_failure [of "stream_at (S178 md_tcp)" "out_ok md_tcp" EOF srv0 Live 0
      "run lib0 srv0 [ConnStep Accepted] init_conn" md_tcp]
  by (simp add: run_def handleConn_step_def streamTask_step_def handleStream_step_def init_conn_def
      new_stream_def out_ok_def stream_at_def Let_def)

end
